theory Spec2Isabelle
  imports Complex_Main "HOL-Library.Sublist"
begin

section \<open>Shared vocabulary\<close>

text \<open>
  Python's \<open>str\<close> is modelled as \<open>string\<close>, holding the UTF-8 bytes of the text; the
  sources' literals outside ASCII are written out as their bytes. A \<open>float\<close> is modelled by
  the exact rational value of the double; NaN and the infinities are not represented.

  What a call of the program does: it returns a value, or it raises an exception derived
  from Python's \<open>Exception\<close> (the class every \<open>except Exception\<close> of the sources
  catches). Cancellation of the running task is outside the model.
\<close>

datatype 'a outcome = Returns 'a | Raises

section \<open>models.py\<close>

record event =
  url :: string
  name :: "string option"
  venue :: "string option"

text \<open>
  The field \<open>event\<close> is declared \<open>Event\<close> in the dataclass, yet \<open>find_tickets\<close> passes
  \<open>None\<close>, hence the option. \<open>Event.date\<close> is never assigned by the sources and is left out,
  as are \<open>webhook_url\<close> and \<open>email\<close> of \<open>NotificationConfig\<close>, which nothing reads. The
  field \<open>section\<close> of \<open>Ticket\<close> is \<open>section_name\<close> here.
\<close>

record ticket =
  event :: "event option"
  section_name :: string
  row :: "string option"
  price :: "rat option"
  quantity :: int
  is_verified_resale :: bool
  listing_url :: "string option"

record notification =
  title :: string
  message :: string
  priority :: int
  tags :: "string list option"
  actions :: "(string \<times> string) list list option"

record notification_config =
  enabled :: bool
  service :: string
  topic :: "string option"
  retry_attempts :: int
  retry_delay :: int

section \<open>notifications.py: NotificationService.send\<close>

text \<open>
  The observable effects of one \<open>send\<close>: how often \<open>_send_impl\<close> was invoked and the
  arguments of \<open>asyncio.sleep\<close>, in order.
\<close>

record send_log =
  calls :: nat
  sleeps :: "int list"

text \<open>
  \<open>_send_impl\<close> is abstract in the base class; its behaviour is given by the outcome of
  its k-th invocation (counted from 0), as a mock with a \<open>side_effect\<close> list or a network
  transport behaves. \<open>send_attempts\<close> is the body of
  \<open>for attempt in range(1, self.retry_attempts + 1)\<close> over the remaining attempt numbers;
  the empty list is the \<open>return False\<close> after the loop.
\<close>

fun send_attempts ::
  "notification_config \<Rightarrow> (nat \<Rightarrow> bool outcome) \<Rightarrow> int list \<Rightarrow> send_log \<Rightarrow> bool \<times> send_log"
where
  "send_attempts cfg impl [] lg = (False, lg)"
| "send_attempts cfg impl (attempt # rest) lg =
     (case impl (calls lg) of
        Returns b \<Rightarrow> (b, lg\<lparr>calls := Suc (calls lg)\<rparr>)
      | Raises \<Rightarrow>
          if attempt = retry_attempts cfg
          then (False, lg\<lparr>calls := Suc (calls lg)\<rparr>)
          else send_attempts cfg impl rest
                 (lg\<lparr>calls := Suc (calls lg),
                      sleeps := sleeps lg @ [retry_delay cfg * attempt]\<rparr>))"

definition send :: "notification_config \<Rightarrow> (nat \<Rightarrow> bool outcome) \<Rightarrow> bool \<times> send_log" where
  "send cfg impl = send_attempts cfg impl [1 .. retry_attempts cfg] \<lparr>calls = 0, sleeps = []\<rparr>"

section \<open>notifications.py: NotificationManager.send_notification\<close>

text \<open>
  A configured service, as the manager sees it: what \<open>service.send(notification)\<close> does.
  \<open>asyncio.gather(..., return_exceptions=True)\<close> hands back one result per service, in
  the order of \<open>self.services\<close>, an exception being a result like any other. Each
  entry of \<open>gather\<close> pairs the argument of one \<open>service.send\<close> call with its result; the
  second component of \<open>send_notification\<close> lists those arguments, in order.
\<close>

type_synonym service = "notification \<Rightarrow> bool outcome"

definition gather :: "service list \<Rightarrow> notification \<Rightarrow> (notification \<times> bool outcome) list" where
  "gather services n = map (\<lambda>service. (n, service n)) services"

fun truthy_result :: "bool outcome \<Rightarrow> bool" where
  "truthy_result Raises = False"
| "truthy_result (Returns r) = r"

definition send_notification ::
  "service list \<Rightarrow> string \<Rightarrow> string \<Rightarrow> int \<Rightarrow> string list option \<Rightarrow>
   (string \<times> string) list list option \<Rightarrow> bool \<times> notification list"
where
  "send_notification services title' message' priority' tags' actions' =
     (if services = [] then (False, [])
      else
        let n = \<lparr>title = title', message = message', priority = priority',
                  tags = tags', actions = actions'\<rparr>;
            results = gather services n
        in (list_ex (\<lambda>r. truthy_result (snd r)) results, map fst results))"

section \<open>scraper.py: the listing scan\<close>

text \<open>
  \<open>str.strip()\<close> removes the whitespace characters at both ends. \<open>whitespace\<close> lists
  every character Python counts as whitespace by its UTF-8 bytes: U+0009 to U+000D,
  U+001C to U+001F, U+0020, U+0085, U+00A0, U+1680, U+2000 to U+200A, U+2028, U+2029,
  U+202F, U+205F and U+3000. \<open>drop_leading\<close> removes listed byte sequences from the front
  as long as one matches; at the end of the text the same is done on the reversed bytes.
  \<open>or_empty\<close> is the idiom \<open>(await e.text_content() or '')\<close>.
\<close>

definition whitespace :: "string list" where
  "whitespace =
     [[CHR 0x09], [CHR 0x0A], [CHR 0x0B], [CHR 0x0C], [CHR 0x0D],
      [CHR 0x1C], [CHR 0x1D], [CHR 0x1E], [CHR 0x1F], [CHR 0x20],
      [CHR 0xC2, CHR 0x85], [CHR 0xC2, CHR 0xA0], [CHR 0xE1, CHR 0x9A, CHR 0x80],
      [CHR 0xE2, CHR 0x80, CHR 0x80], [CHR 0xE2, CHR 0x80, CHR 0x81],
      [CHR 0xE2, CHR 0x80, CHR 0x82], [CHR 0xE2, CHR 0x80, CHR 0x83],
      [CHR 0xE2, CHR 0x80, CHR 0x84], [CHR 0xE2, CHR 0x80, CHR 0x85],
      [CHR 0xE2, CHR 0x80, CHR 0x86], [CHR 0xE2, CHR 0x80, CHR 0x87],
      [CHR 0xE2, CHR 0x80, CHR 0x88], [CHR 0xE2, CHR 0x80, CHR 0x89],
      [CHR 0xE2, CHR 0x80, CHR 0x8A], [CHR 0xE2, CHR 0x80, CHR 0xA8],
      [CHR 0xE2, CHR 0x80, CHR 0xA9], [CHR 0xE2, CHR 0x80, CHR 0xAF],
      [CHR 0xE2, CHR 0x81, CHR 0x9F], [CHR 0xE3, CHR 0x80, CHR 0x80]]"

function drop_leading :: "string list \<Rightarrow> string \<Rightarrow> string" where
  "drop_leading ws s =
     (case List.find (\<lambda>w. w \<noteq> [] \<and> prefix w s) ws of
        None \<Rightarrow> s
      | Some w \<Rightarrow> drop_leading ws (drop (length w) s))"
  by pat_completeness auto
termination
proof (relation "measure (\<lambda>(ws, s). length s)")
  show "wf (measure (\<lambda>(ws, s). length s))" by simp
next
  fix ws :: "string list" and s w :: string
  assume "List.find (\<lambda>w. w \<noteq> [] \<and> prefix w s) ws = Some w"
  then have "w \<noteq> []" and "prefix w s" by (auto simp: find_Some_iff)
  then have "0 < length w" and "length w \<le> length s" by (simp_all add: prefix_length_le)
  then have "length s - length w < length s" by arith
  then show "((ws, drop (length w) s), (ws, s)) \<in> measure (\<lambda>(ws, s). length s)" by simp
qed

declare drop_leading.simps [simp del]

definition lstrip :: "string \<Rightarrow> string" where
  "lstrip s = drop_leading whitespace s"

definition rstrip :: "string \<Rightarrow> string" where
  "rstrip s = rev (drop_leading (map rev whitespace) (rev s))"

definition strip :: "string \<Rightarrow> string" where
  "strip s = rstrip (lstrip s)"

fun or_empty :: "string option \<Rightarrow> string" where
  "or_empty None = []"
| "or_empty (Some s) = s"

text \<open>
  The page, as far as \<open>_simple_resale_check\<close> reads it. Every query of the automation
  engine may raise. A \<open>dt\<close> element answers \<open>text_content()\<close> and
  \<open>evaluate_handle('el => el.nextElementSibling')\<close>; the handle is falsy (\<open>None\<close>) or
  answers \<open>text_content()\<close> in turn. An \<open>li\<close> element answers
  \<open>query_selector_all('span')\<close> with the spans, each given by its \<open>text_content()\<close>, and
  \<open>query_selector_all('dt')\<close>.
\<close>

record dt_element =
  dt_text :: "string option outcome"
  dd_handle :: "string option outcome option outcome"

record li_element =
  spans :: "string option outcome list outcome"
  dts :: "dt_element list outcome"

text \<open>The loop \<open>for dt in dt_elements\<close>: the value of \<open>section_text\<close> when it ends.\<close>

fun find_section :: "dt_element list \<Rightarrow> string option outcome" where
  "find_section [] = Returns None"
| "find_section (dt # rest) =
     (case dt_text dt of
        Raises \<Rightarrow> Raises
      | Returns t \<Rightarrow>
          if strip (or_empty t) = ''Section''
          then (case dd_handle dt of
                  Raises \<Rightarrow> Raises
                | Returns None \<Rightarrow> Returns None
                | Returns (Some content) \<Rightarrow>
                    (case content of
                       Raises \<Rightarrow> Raises
                     | Returns s \<Rightarrow> Returns (Some (strip (or_empty s)))))
          else find_section rest)"

text \<open>
  The inner \<open>try ... except Exception: pass\<close>: \<open>section_text\<close> is assigned last, so a raise
  anywhere leaves it \<open>None\<close>.
\<close>

definition section_text :: "li_element \<Rightarrow> string option" where
  "section_text li =
     (case dts li of
        Raises \<Rightarrow> None
      | Returns dt_elements \<Rightarrow>
          (case find_section dt_elements of Raises \<Rightarrow> None | Returns s \<Rightarrow> s))"

text \<open>\<open>section_text or "N/A"\<close>: \<open>None\<close> and the empty string are falsy.\<close>

fun or_na :: "string option \<Rightarrow> string" where
  "or_na None = ''N/A''"
| "or_na (Some s) = (if s = [] then ''N/A'' else s)"

definition simple_ticket :: "event option \<Rightarrow> li_element \<Rightarrow> ticket" where
  "simple_ticket ev li =
     \<lparr>event = ev, section_name = or_na (section_text li), row = None, price = None,
      quantity = 1, is_verified_resale = True, listing_url = None\<rparr>"

text \<open>
  The loop \<open>for span in spans\<close> of one list item: the ticket it appends, if any, or the
  raise of a \<open>text_content()\<close>.
\<close>

fun scan_spans :: "event option \<Rightarrow> li_element \<Rightarrow> string option outcome list \<Rightarrow> ticket option outcome"
where
  "scan_spans ev li [] = Returns None"
| "scan_spans ev li (sp # rest) =
     (case sp of
        Raises \<Rightarrow> Raises
      | Returns t \<Rightarrow>
          if strip (or_empty t) = ''Verified Resale Ticket''
          then Returns (Some (simple_ticket ev li))
          else scan_spans ev li rest)"

definition scan_item :: "event option \<Rightarrow> li_element \<Rightarrow> ticket option outcome" where
  "scan_item ev li =
     (case spans li of Raises \<Rightarrow> Raises | Returns sps \<Rightarrow> scan_spans ev li sps)"

text \<open>
  The loop \<open>for idx, li in enumerate(ticket_elements, 1)\<close> with the list \<open>tickets\<close> built so
  far; a raise ends it through the outer \<open>except Exception\<close>, which returns what was
  collected.
\<close>

fun scan_items :: "event option \<Rightarrow> li_element list \<Rightarrow> ticket list \<Rightarrow> ticket list" where
  "scan_items ev [] tickets = tickets"
| "scan_items ev (li # rest) tickets =
     (case scan_item ev li of
        Raises \<Rightarrow> tickets
      | Returns None \<Rightarrow> scan_items ev rest tickets
      | Returns (Some t) \<Rightarrow> scan_items ev rest (tickets @ [t]))"

definition simple_resale_check :: "li_element list outcome \<Rightarrow> event option \<Rightarrow> ticket list" where
  "simple_resale_check page_items ev =
     (case page_items of Raises \<Rightarrow> [] | Returns ticket_elements \<Rightarrow> scan_items ev ticket_elements [])"

section \<open>scraper.py: find_tickets and check_for_resale_tickets\<close>

text \<open>
  What the browser session answers during one \<open>find_tickets\<close>: whether the browser manager
  and its page exist, whether \<open>navigate\<close> raises, what \<open>_click_quantity_stepper\<close> and
  \<open>_click_find_tickets\<close> return (both catch every exception themselves, as do
  \<open>clear_storage\<close> and \<open>handle_cookie_consent\<close>), and what
  \<open>page.query_selector_all('li[role="button"]')\<close> yields. The last two fields sum up the
  statements below the simple check (lines 166 to 264), were they to run: how many ticket
  elements their selectors find and the tickets their parse yields. Logging and the pacing
  sleeps are left out.
\<close>

record browser_session =
  initialized :: bool
  navigate_result :: "unit outcome"
  quantity_stepper_clicked :: bool
  find_tickets_clicked :: bool
  li_elements :: "li_element list outcome"
  detailed_elements :: nat
  detailed_tickets :: "ticket list"

text \<open>The methods \<open>find_tickets\<close> invokes, to record which ones a run reaches.\<close>

datatype step =
    Clear_storage
  | Navigate string
  | Handle_cookie_consent
  | Click_quantity_stepper
  | Click_find_tickets
  | Take_screenshot string
  | Simple_resale_check
  | Parse_ticket_element nat

text \<open>
  A statement of the method body either returns from the method or lets control fall
  through to the statement below it.
\<close>

datatype 'a flow = Returned 'a | Falls_through

text \<open>
  Lines 161 to 165: \<open>if simple_tickets: return simple_tickets\<close>, then \<open>return []\<close>.
\<close>

definition simple_check_statement :: "ticket list \<Rightarrow> ticket list flow" where
  "simple_check_statement simple_tickets =
     (if simple_tickets \<noteq> [] then Returned simple_tickets else Returned [])"

text \<open>
  Lines 166 to 264, the detailed path: a screenshot, then \<open>_parse_ticket_element\<close> on each
  ticket element, numbered from 1, and the tickets collected.
\<close>

definition detailed_path :: "browser_session \<Rightarrow> ticket list \<times> step list" where
  "detailed_path s =
     (detailed_tickets s,
      Take_screenshot ''after_ticket_load.png'' #
      map Parse_ticket_element [1 ..< Suc (detailed_elements s)])"

text \<open>
  \<open>find_tickets\<close>: the tickets it returns and the methods it invoked, in order. A failing
  screenshot is caught and logged in place.
\<close>

definition find_tickets :: "browser_session \<Rightarrow> string \<Rightarrow> ticket list \<times> step list" where
  "find_tickets s event_url =
     (if \<not> initialized s then ([], [])
      else
        (case navigate_result s of
           Raises \<Rightarrow>
             ([], [Clear_storage, Navigate event_url, Take_screenshot ''error_occurred.png''])
         | Returns _ \<Rightarrow>
             if \<not> find_tickets_clicked s
             then ([], [Clear_storage, Navigate event_url, Handle_cookie_consent,
                        Click_quantity_stepper, Click_find_tickets,
                        Take_screenshot ''ticket_button_not_found.png''])
             else
               let simple_tickets = simple_resale_check (li_elements s) None;
                   steps = [Clear_storage, Navigate event_url, Handle_cookie_consent,
                            Click_quantity_stepper, Click_find_tickets, Simple_resale_check]
               in case simple_check_statement simple_tickets of
                    Returned tickets \<Rightarrow> (tickets, steps)
                  | Falls_through \<Rightarrow>
                      (case detailed_path s of (tickets, further) \<Rightarrow> (tickets, steps @ further))))"

text \<open>
  \<open>check_for_resale_tickets\<close> calls \<open>self.find_tickets\<close>, which is looked up on the
  instance (the tests put a mock there); it is a parameter here, and
  \<open>scraper_find_tickets\<close> is the method of the class itself.
\<close>

definition check_for_resale_tickets :: "(string \<Rightarrow> ticket list) \<Rightarrow> string \<Rightarrow> ticket list" where
  "check_for_resale_tickets find_tickets_method event_url =
     (let all_tickets = find_tickets_method event_url
      in filter is_verified_resale all_tickets)"

definition scraper_find_tickets :: "browser_session \<Rightarrow> string \<Rightarrow> ticket list" where
  "scraper_find_tickets s event_url = fst (find_tickets s event_url)"

section \<open>scraper.py: price parsing in _parse_ticket_element\<close>

text \<open>
  Lines 481 to 497 of \<open>_parse_ticket_element\<close>. \<open>str.isdigit\<close> is taken on ASCII;
  \<open>find_char\<close> is \<open>str.find\<close> for a one-character needle (the index of the first
  occurrence, or -1) and \<open>replace_char\<close> is \<open>str.replace\<close> for one.
\<close>

definition is_digit :: "char \<Rightarrow> bool" where
  "is_digit c = (c \<in> set ''0123456789'')"

fun find_char :: "char \<Rightarrow> string \<Rightarrow> int" where
  "find_char c [] = -1"
| "find_char c (x # xs) =
     (if x = c then 0 else (let i = find_char c xs in if i < 0 then -1 else i + 1))"

definition replace_char :: "char \<Rightarrow> string \<Rightarrow> string \<Rightarrow> string" where
  "replace_char old new s = concat (map (\<lambda>x. if x = old then new else [x]) s)"

definition normalize_price :: "string \<Rightarrow> string" where
  "normalize_price price_text =
     (let price_str = filter (\<lambda>c. is_digit c \<or> c = CHR ''.'' \<or> c = CHR '','') price_text
      in if CHR '','' \<in> set price_str \<and> CHR ''.'' \<in> set price_str
         then (if find_char (CHR '','') price_str < find_char (CHR ''.'') price_str
               then replace_char (CHR '','') ''.'' (replace_char (CHR ''.'') [] price_str)
               else replace_char (CHR '','') [] price_str)
         else replace_char (CHR '','') ''.'' price_str)"

text \<open>
  \<open>float(price_str)\<close> on what the normalization can yield, a string of digits and points:
  the decimal it denotes, or \<open>None\<close> for the \<open>ValueError\<close> (no digit at all, or more than
  one point), which the source catches, leaving \<open>price = None\<close>. The value is the exact
  decimal, where Python rounds it to the nearest double and gives \<open>inf\<close> beyond the range
  of the doubles. Any other character is refused here; in particular the decimal digits
  outside ASCII, which \<open>str.isdigit\<close> and \<open>float\<close> accept, are not modelled.
\<close>

definition digit_value :: "char \<Rightarrow> nat" where
  "digit_value c = of_char c - 48"

definition digits_value :: "string \<Rightarrow> nat" where
  "digits_value ds = foldl (\<lambda>n c. 10 * n + digit_value c) 0 ds"

definition py_float :: "string \<Rightarrow> rat option" where
  "py_float s =
     (let whole = takeWhile (\<lambda>c. c \<noteq> CHR ''.'') s;
          rest = dropWhile (\<lambda>c. c \<noteq> CHR ''.'') s;
          frac = tl rest
      in if \<not> list_all (\<lambda>c. is_digit c \<or> c = CHR ''.'') s then None
         else if rest = [] then (if whole = [] then None else Some (of_nat (digits_value whole)))
         else if CHR ''.'' \<in> set frac \<or> (whole = [] \<and> frac = []) then None
         else Some (of_nat (digits_value (whole @ frac)) / 10 ^ length frac))"

definition parse_price :: "string \<Rightarrow> rat option" where
  "parse_price price_text = py_float (normalize_price price_text)"

section \<open>app.py: the alert message\<close>

definition euro :: string where
  "euro = [CHR 0xE2, CHR 0x82, CHR 0xAC]"

definition ticket_emoji :: string where
  "ticket_emoji = [CHR 0xF0, CHR 0x9F, CHR 0x8E, CHR 0x9F, CHR 0xEF, CHR 0xB8, CHR 0x8F]"

definition link_emoji :: string where
  "link_emoji = [CHR 0xF0, CHR 0x9F, CHR 0x94, CHR 0x97]"

definition newline :: string where
  "newline = [CHR 0x0A]"

text \<open>\<open>str(n)\<close> for a count or an index.\<close>

definition digit_char :: "nat \<Rightarrow> char" where
  "digit_char d = ''0123456789'' ! (d mod 10)"

fun str_nat :: "nat \<Rightarrow> string" where
  "str_nat n = (if n < 10 then [digit_char n] else str_nat (n div 10) @ [digit_char (n mod 10)])"

declare str_nat.simps [simp del]

text \<open>
  The format \<open>:,.2f\<close>: the value rounded to two decimals, ties to even on the exact value
  of the double, with a comma between groups of three digits of the integer part.
\<close>

definition round_half_even :: "rat \<Rightarrow> int" where
  "round_half_even x =
     (let f = \<lfloor>x\<rfloor>; d = x - of_int f
      in if d < 1 / 2 then f else if 1 / 2 < d then f + 1 else if even f then f else f + 1)"

fun group_thousands :: "nat \<Rightarrow> string" where
  "group_thousands n =
     (if n < 1000 then str_nat n
      else group_thousands (n div 1000) @ '','' @
           [digit_char (n mod 1000 div 100), digit_char (n mod 100 div 10), digit_char (n mod 10)])"

declare group_thousands.simps [simp del]

definition format_2f :: "rat \<Rightarrow> string" where
  "format_2f x =
     (let cents = nat (round_half_even (\<bar>x\<bar> * 100))
      in (if x < 0 then ''-'' else []) @ group_thousands (cents div 100) @ ''.'' @
         [digit_char (cents mod 100 div 10), digit_char (cents mod 10)])"

text \<open>
  \<open>f"..." if ticket.price else "Price not available"\<close>: \<open>None\<close> and \<open>0.0\<close> are falsy.
\<close>

definition price_label :: "ticket \<Rightarrow> string" where
  "price_label t =
     (case price t of
        None \<Rightarrow> ''Price not available''
      | Some p \<Rightarrow> if p = 0 then ''Price not available'' else euro @ format_2f p)"

text \<open>
  The loop \<open>for i, ticket in enumerate(tickets[:5], 1)\<close>: the parts it appends, from
  index \<open>i\<close> on. An empty \<open>row\<close> is falsy like \<open>None\<close>.
\<close>

fun ticket_parts :: "nat \<Rightarrow> ticket list \<Rightarrow> string list" where
  "ticket_parts i [] = []"
| "ticket_parts i (t # ts) =
     (newline @ str_nat i @ ''. '' @ section_name t @ '' - '' @ price_label t) #
     (if or_empty (row t) \<noteq> [] then ['' (Row '' @ or_empty (row t) @ '')''] else []) @
     ticket_parts (Suc i) ts"

definition message_parts :: "event \<Rightarrow> ticket list \<Rightarrow> string list" where
  "message_parts ev tickets =
     [ticket_emoji @ '' '' @ (if or_empty (name ev) \<noteq> [] then or_empty (name ev) else ''Event'') @
        '' - '' @ str_nat (length tickets) @ '' resale ticket(s) found!'']
     @ ticket_parts 1 (take 5 tickets)
     @ (if length tickets > 5
        then [newline @ ''... and '' @ str_nat (length tickets - 5) @ '' more'']
        else [])
     @ [newline @ newline @ link_emoji @ '' '' @ url ev]"

definition alert_message :: "event \<Rightarrow> ticket list \<Rightarrow> string" where
  "alert_message ev tickets = concat (message_parts ev tickets)"

text \<open>\<open>_handle_resale_tickets_found\<close>: the alert goes out through the manager.\<close>

definition handle_resale_tickets_found ::
  "service list \<Rightarrow> event \<Rightarrow> ticket list \<Rightarrow> bool \<times> notification list"
where
  "handle_resale_tickets_found services ev tickets =
     send_notification services (ticket_emoji @ '' Resale Tickets Available!'')
       (alert_message ev tickets) 4 (Some [''ticket'', ''warning'']) None"

section \<open>browser.py and scraper.py: the browser session of one check\<close>

text \<open>
  The resources \<open>BrowserManager.setup\<close> acquires, in order: the automation engine
  (\<open>async_playwright().start()\<close>), the browser, the context and the page.
\<close>

datatype resource = Engine | Browser | Context | Page

text \<open>
  Which calls of the automation engine succeed during one session (\<open>True\<close>) and which raise.
\<close>

record engine_behaviour =
  start_ok :: bool
  launch_ok :: bool
  new_context_ok :: bool
  add_init_script_ok :: bool
  new_page_ok :: bool
  page_is_closed :: bool
  page_close_ok :: bool
  context_close_ok :: bool
  browser_close_ok :: bool
  stop_ok :: bool

text \<open>
  The attributes \<open>playwright\<close>, \<open>browser\<close>, \<open>context\<close> and \<open>page\<close> of the
  \<open>BrowserManager\<close> (set or \<open>None\<close>), the resources that are open, and the releases
  performed so far, in order.
\<close>

record manager_state =
  playwright_attr :: bool
  browser_attr :: bool
  context_attr :: bool
  page_attr :: bool
  open_resources :: "resource set"
  released :: "resource list"

definition new_manager :: manager_state where
  "new_manager = \<lparr>playwright_attr = False, browser_attr = False, context_attr = False, page_attr = False,
                   open_resources = {}, released = []\<rparr>"

definition browser_setup :: "engine_behaviour \<Rightarrow> manager_state \<Rightarrow> unit outcome \<times> manager_state" where
  "browser_setup e m =
     (if \<not> start_ok e then (Raises, m)
      else
        let m1 = m\<lparr>playwright_attr := True, open_resources := insert Engine (open_resources m)\<rparr>
        in if \<not> launch_ok e then (Raises, m1)
           else
             let m2 = m1\<lparr>browser_attr := True, open_resources := insert Browser (open_resources m1)\<rparr>
             in if \<not> new_context_ok e then (Raises, m2)
                else
                  let m3 = m2\<lparr>context_attr := True,
                              open_resources := insert Context (open_resources m2)\<rparr>
                  in if \<not> add_init_script_ok e then (Raises, m3)
                     else if \<not> new_page_ok e then (Raises, m3)
                     else (Returns (),
                           m3\<lparr>page_attr := True, open_resources := insert Page (open_resources m3)\<rparr>))"

definition release :: "resource \<Rightarrow> manager_state \<Rightarrow> manager_state" where
  "release r m = m\<lparr>open_resources := open_resources m - {r}, released := released m @ [r]\<rparr>"

text \<open>
  \<open>cleanup\<close>: four guarded closes in sequence; a close that raises ends it, leaving the
  later ones undone.
\<close>

definition cleanup :: "engine_behaviour \<Rightarrow> manager_state \<Rightarrow> unit outcome \<times> manager_state" where
  "cleanup e m =
     (if page_attr m \<and> \<not> page_is_closed e \<and> \<not> page_close_ok e then (Raises, m)
      else
        let m1 = (if page_attr m \<and> \<not> page_is_closed e then release Page m else m)
        in if context_attr m1 \<and> \<not> context_close_ok e then (Raises, m1)
           else
             let m2 = (if context_attr m1 then release Context m1 else m1)
             in if browser_attr m2 \<and> \<not> browser_close_ok e then (Raises, m2)
                else
                  let m3 = (if browser_attr m2 then release Browser m2 else m2)
                  in if playwright_attr m3 \<and> \<not> stop_ok e then (Raises, m3)
                     else (Returns (), if playwright_attr m3 then release Engine m3 else m3))"

text \<open>
  \<open>TicketScraper.__aenter__\<close> and \<open>__aexit__\<close>; \<open>None\<close> is the attribute
  \<open>browser_manager\<close> before \<open>__aenter__\<close> assigns it.
\<close>

definition aenter :: "engine_behaviour \<Rightarrow> unit outcome \<times> manager_state option" where
  "aenter e = (case browser_setup e new_manager of (r, m) \<Rightarrow> (r, Some m))"

definition aexit :: "engine_behaviour \<Rightarrow> manager_state option \<Rightarrow> unit outcome \<times> manager_state option"
where
  "aexit e bm =
     (case bm of
        None \<Rightarrow> (Returns (), None)
      | Some m \<Rightarrow> (case cleanup e m of (r, m') \<Rightarrow> (r, Some m')))"

text \<open>
  \<open>async with TicketScraper(cfg) as scraper: body\<close>, as \<open>check_event\<close> runs it: when
  \<open>__aenter__\<close> raises, the statement raises and \<open>__aexit__\<close> is not called; otherwise the
  body runs to its outcome (its value, an early \<open>return\<close> or an exception) and
  \<open>__aexit__\<close> is called once, whichever it is. The result is the statement's outcome and
  the manager's final state.
\<close>

definition scraper_session ::
  "engine_behaviour \<Rightarrow> 'a outcome \<Rightarrow> 'a outcome \<times> manager_state option" where
  "scraper_session e body =
     (case aenter e of
        (Raises, bm) \<Rightarrow> (Raises, bm)
      | (Returns _, bm) \<Rightarrow>
          (case aexit e bm of
             (Raises, bm') \<Rightarrow> (Raises, bm')
           | (Returns _, bm') \<Rightarrow> (body, bm')))"

section \<open>app.py: the wait between two cycles\<close>

text \<open>
  Time is a logical clock in seconds: \<open>asyncio.sleep(d)\<close> advances it by \<open>d\<close>, everything
  else takes no time. The signal handler sets the shutdown flag at the time \<open>shutdown_at\<close>
  (\<open>None\<close>: never), and \<open>is_set\<close> is \<open>shutdown_event.is_set()\<close> read at a given time.
  Arithmetic on the \<open>float\<close> seconds is exact.
\<close>

record wait_state =
  now :: rat
  slept :: "rat list"

definition is_set :: "rat option \<Rightarrow> rat \<Rightarrow> bool" where
  "is_set shutdown_at t = (case shutdown_at of None \<Rightarrow> False | Some s \<Rightarrow> s \<le> t)"

definition sleep :: "rat \<Rightarrow> wait_state \<Rightarrow> wait_state" where
  "sleep d w = \<lparr>now = now w + d, slept = slept w @ [d]\<rparr>"

text \<open>
  The loop \<open>for _ in range(chunks)\<close> with \<open>chunk_size = 10\<close>: \<open>Inl\<close> is the \<open>return\<close>
  inside it, \<open>Inr\<close> its normal end.
\<close>

fun wait_chunks :: "rat option \<Rightarrow> nat \<Rightarrow> wait_state \<Rightarrow> wait_state + wait_state" where
  "wait_chunks shutdown_at 0 w = Inr w"
| "wait_chunks shutdown_at (Suc n) w =
     (if is_set shutdown_at (now w) then Inl w
      else wait_chunks shutdown_at n (sleep 10 w))"

text \<open>
  \<open>_wait_until_next_check\<close>; \<open>u\<close> is the draw of \<open>random.random()\<close> behind
  \<open>random.uniform(min_interval, max_interval)\<close>, and \<open>range\<close> of a negative count is empty.
\<close>

definition wait_until_next_check ::
  "rat option \<Rightarrow> rat \<times> rat \<Rightarrow> rat \<Rightarrow> wait_state \<Rightarrow> wait_state" where
  "wait_until_next_check shutdown_at check_interval u w =
     (let (min_interval, max_interval) = check_interval;
          wait_minutes = min_interval + (max_interval - min_interval) * u;
          wait_seconds = wait_minutes * 60;
          chunks = \<lfloor>wait_seconds / 10\<rfloor>;
          remainder = wait_seconds - 10 * of_int chunks
      in case wait_chunks shutdown_at (nat chunks) w of
           Inl w' \<Rightarrow> w'
         | Inr w' \<Rightarrow>
             if 0 < remainder \<and> \<not> is_set shutdown_at (now w') then sleep remainder w' else w')"

section \<open>Example inputs\<close>

text \<open>
  List items: one without the marker; one whose marker is surrounded by a no-break space
  and a line feed, with a Section label \<open>A\<close>; one with the marker and no Section label;
  and four with the marker and a Section label whose value is not recoverable: the
  sibling handle is falsy, the value is blank, the sibling lookup raises, and reading the
  value raises. One session whose listing shows all seven, one whose listing shows only
  the first.
\<close>

definition standard_item :: li_element where
  "standard_item = \<lparr>spans = Returns [Returns (Some ''Standard Ticket'')], dts = Returns []\<rparr>"

definition padded_marker :: string where
  "padded_marker = [CHR 0xC2, CHR 0xA0] @ ''Verified Resale Ticket'' @ [CHR 0x0A]"

definition resale_item :: li_element where
  "resale_item =
     \<lparr>spans = Returns [Returns None, Returns (Some padded_marker)],
      dts = Returns [\<lparr>dt_text = Returns (Some ''Row''),
                      dd_handle = Returns (Some (Returns (Some ''7'')))\<rparr>,
                     \<lparr>dt_text = Returns (Some '' Section''),
                      dd_handle = Returns (Some (Returns (Some ''A '')))\<rparr>]\<rparr>"

definition unlabelled_item :: li_element where
  "unlabelled_item =
     \<lparr>spans = Returns [Returns (Some ''Verified Resale Ticket'')],
      dts = Returns [\<lparr>dt_text = Returns (Some ''Row''),
                      dd_handle = Returns (Some (Returns (Some ''7'')))\<rparr>]\<rparr>"

definition labelled_item :: "string option outcome option outcome \<Rightarrow> li_element" where
  "labelled_item handle =
     \<lparr>spans = Returns [Returns (Some ''Verified Resale Ticket'')],
      dts = Returns [\<lparr>dt_text = Returns (Some ''Section''), dd_handle = handle\<rparr>]\<rparr>"

definition falsy_sibling_item :: li_element where
  "falsy_sibling_item = labelled_item (Returns None)"

definition blank_section_item :: li_element where
  "blank_section_item = labelled_item (Returns (Some (Returns (Some ''  ''))))"

definition raising_lookup_item :: li_element where
  "raising_lookup_item = labelled_item Raises"

definition raising_value_item :: li_element where
  "raising_value_item = labelled_item (Returns (Some Raises))"

definition resale_session :: browser_session where
  "resale_session =
     \<lparr>initialized = True, navigate_result = Returns (), quantity_stepper_clicked = False,
      find_tickets_clicked = True,
      li_elements = Returns [standard_item, resale_item, unlabelled_item, falsy_sibling_item,
                             blank_section_item, raising_lookup_item, raising_value_item],
      detailed_elements = 7, detailed_tickets = []\<rparr>"


text \<open>
  The event and the two tickets of the end-to-end scenario; the prices are the doubles
  that Python reads from \<open>99.99\<close> and \<open>149.99\<close>.
\<close>

definition test_event :: event where
  "test_event = \<lparr>url = ''https://example.com/event/1'', name = Some ''Test Event'', venue = None\<rparr>"

definition ticket_a :: ticket where
  "ticket_a =
     \<lparr>event = Some test_event, section_name = ''A'', row = None,
      price = Some (7036170730324623 / 70368744177664), quantity = 1,
      is_verified_resale = True, listing_url = None\<rparr>"

definition ticket_b :: ticket where
  "ticket_b =
     \<lparr>event = Some test_event, section_name = ''B'', row = None,
      price = Some (659662996200489 / 4398046511104), quantity = 1,
      is_verified_resale = True, listing_url = None\<rparr>"

text \<open>
  The list a mocked \<open>find_tickets\<close> hands back in the tests: a regular ticket, then a
  verified resale ticket.
\<close>

definition regular_ticket :: ticket where
  "regular_ticket = ticket_a\<lparr>is_verified_resale := False\<rparr>"

definition mock_find_tickets :: "string \<Rightarrow> ticket list" where
  "mock_find_tickets event_url = [regular_ticket, ticket_b]"

text \<open>An engine on which every call succeeds, and one whose \<open>new_page\<close> raises.\<close>

definition engine_ok :: engine_behaviour where
  "engine_ok =
     \<lparr>start_ok = True, launch_ok = True, new_context_ok = True, add_init_script_ok = True,
      new_page_ok = True, page_is_closed = False, page_close_ok = True,
      context_close_ok = True, browser_close_ok = True, stop_ok = True\<rparr>"

definition engine_new_page_raises :: engine_behaviour where
  "engine_new_page_raises = engine_ok\<lparr>new_page_ok := False\<rparr>"


section \<open>Retry and backoff of NotificationService.send\<close>

text \<open>
  Two runs of the loop from attempt \<open>a\<close> on: the first \<open>k\<close> invocations raise and the next
  one returns, or every remaining invocation raises.
\<close>

lemma send_attempts_first_return:
  "a + int k \<le> retry_attempts cfg \<Longrightarrow> (\<forall>j<k. impl (calls lg + j) = Raises) \<Longrightarrow>
   impl (calls lg + k) = Returns b \<Longrightarrow>
   send_attempts cfg impl [a .. retry_attempts cfg] lg =
     (b, \<lparr>calls = Suc (calls lg + k),
          sleeps = sleeps lg @ map (\<lambda>x. retry_delay cfg * x) [a .. a + int k - 1]\<rparr>)"
proof (induction k arbitrary: a lg)
  case 0
  then show ?case by (simp add: upto_rec1 [of a])
next
  case (Suc k)
  have r: "impl (calls lg) = Raises" using Suc.prems(2) by (metis add.right_neutral zero_less_Suc)
  have ne: "a \<noteq> retry_attempts cfg" and le: "a \<le> retry_attempts cfg" using Suc.prems(1) by auto
  let ?lg = "lg\<lparr>calls := Suc (calls lg), sleeps := sleeps lg @ [retry_delay cfg * a]\<rparr>"
  have step: "send_attempts cfg impl [a .. retry_attempts cfg] lg
      = send_attempts cfg impl [a + 1 .. retry_attempts cfg] ?lg"
    using r ne le by (simp add: upto_rec1 [of a])
  have "send_attempts cfg impl [a + 1 .. retry_attempts cfg] ?lg =
     (b, \<lparr>calls = Suc (calls ?lg + k),
          sleeps = sleeps ?lg @ map (\<lambda>x. retry_delay cfg * x) [a + 1 .. a + 1 + int k - 1]\<rparr>)"
  proof (rule Suc.IH)
    show "a + 1 + int k \<le> retry_attempts cfg" using Suc.prems(1) by simp
    show "\<forall>j<k. impl (calls ?lg + j) = Raises"
    proof (intro allI impI)
      fix j assume "j < k"
      moreover from Suc.prems(2) have "Suc j < Suc k \<longrightarrow> impl (calls lg + Suc j) = Raises"
        by blast
      ultimately show "impl (calls ?lg + j) = Raises" by simp
    qed
    show "impl (calls ?lg + k) = Returns b" using Suc.prems(3) by simp
  qed
  moreover have "[a .. a + int (Suc k) - 1] = a # [a + 1 .. a + 1 + int k - 1]"
    by (simp add: upto_rec1 [of a] algebra_simps)
  ultimately show ?case using step by simp
qed

lemma send_attempts_all_raise:
  "a + int k = retry_attempts cfg \<Longrightarrow> (\<forall>j\<le>k. impl (calls lg + j) = Raises) \<Longrightarrow>
   send_attempts cfg impl [a .. retry_attempts cfg] lg =
     (False, \<lparr>calls = Suc (calls lg + k),
          sleeps = sleeps lg @ map (\<lambda>x. retry_delay cfg * x) [a .. retry_attempts cfg - 1]\<rparr>)"
proof (induction k arbitrary: a lg)
  case 0
  then show ?case by (simp add: upto_rec1 [of a])
next
  case (Suc k)
  have r: "impl (calls lg) = Raises" using Suc.prems(2) by (metis add.right_neutral le0)
  have ne: "a \<noteq> retry_attempts cfg" and le: "a \<le> retry_attempts cfg" using Suc.prems(1) by auto
  let ?lg = "lg\<lparr>calls := Suc (calls lg), sleeps := sleeps lg @ [retry_delay cfg * a]\<rparr>"
  have step: "send_attempts cfg impl [a .. retry_attempts cfg] lg
      = send_attempts cfg impl [a + 1 .. retry_attempts cfg] ?lg"
    using r ne le by (simp add: upto_rec1 [of a])
  have "send_attempts cfg impl [a + 1 .. retry_attempts cfg] ?lg =
     (False, \<lparr>calls = Suc (calls ?lg + k),
          sleeps = sleeps ?lg @ map (\<lambda>x. retry_delay cfg * x) [a + 1 .. retry_attempts cfg - 1]\<rparr>)"
  proof (rule Suc.IH)
    show "a + 1 + int k = retry_attempts cfg" using Suc.prems(1) by simp
    show "\<forall>j\<le>k. impl (calls ?lg + j) = Raises"
    proof (intro allI impI)
      fix j assume "j \<le> k"
      moreover from Suc.prems(2) have "Suc j \<le> Suc k \<longrightarrow> impl (calls lg + Suc j) = Raises"
        by blast
      ultimately show "impl (calls ?lg + j) = Raises" by simp
    qed
  qed
  moreover have "[a .. retry_attempts cfg - 1] = a # [a + 1 .. retry_attempts cfg - 1]"
    using Suc.prems(1) by (simp add: upto_rec1 [of a])
  ultimately show ?case using step by simp
qed

lemma send_first_return:
  assumes "int k < retry_attempts cfg" "\<forall>j<k. impl j = Raises" "impl k = Returns b"
  shows "send cfg impl =
     (b, \<lparr>calls = Suc k, sleeps = map (\<lambda>x. retry_delay cfg * x) [1 .. int k]\<rparr>)"
  using send_attempts_first_return [of 1 k cfg impl "\<lparr>calls = 0, sleeps = []\<rparr>" b] assms
  by (simp add: send_def)

lemma send_all_raise:
  assumes "1 \<le> retry_attempts cfg" "\<forall>j < nat (retry_attempts cfg). impl j = Raises"
  shows "send cfg impl =
     (False, \<lparr>calls = nat (retry_attempts cfg),
          sleeps = map (\<lambda>x. retry_delay cfg * x) [1 .. retry_attempts cfg - 1]\<rparr>)"
proof -
  obtain k where k: "retry_attempts cfg = 1 + int k"
    using assms(1) by (metis add.commute nonneg_int_cases diff_ge_0_iff_ge diff_add_cancel)
  have "\<forall>j\<le>k. impl (calls \<lparr>calls = 0, sleeps = []\<rparr> + j) = Raises"
    using assms(2) k by simp
  from send_attempts_all_raise [of 1 k cfg impl "\<lparr>calls = 0, sleeps = []\<rparr>", OF _ this] k
  show ?thesis by (simp add: send_def)
qed

lemma send_cases:
  assumes "1 \<le> retry_attempts cfg"
  obtains (all_raise) "\<forall>j < nat (retry_attempts cfg). impl j = Raises"
  | (returns) k b where "int k < retry_attempts cfg" "\<forall>j<k. impl j = Raises" "impl k = Returns b"
proof (cases "\<forall>j < nat (retry_attempts cfg). impl j = Raises")
  case True
  then show ?thesis by (rule all_raise)
next
  case False
  then have ex: "\<exists>j. j < nat (retry_attempts cfg) \<and> impl j \<noteq> Raises" by blast
  define k where "k = (LEAST j. j < nat (retry_attempts cfg) \<and> impl j \<noteq> Raises)"
  have kp: "k < nat (retry_attempts cfg) \<and> impl k \<noteq> Raises"
    unfolding k_def using ex by (rule LeastI_ex)
  have kmin: "\<forall>j<k. impl j = Raises"
  proof (intro allI impI)
    fix j assume jk: "j < k"
    show "impl j = Raises"
    proof (rule ccontr)
      assume "impl j \<noteq> Raises"
      with jk kp have "j < nat (retry_attempts cfg) \<and> impl j \<noteq> Raises" by simp
      then have "k \<le> j" unfolding k_def by (rule Least_le)
      with jk show False by simp
    qed
  qed
  obtain b where "impl k = Returns b" using kp by (cases "impl k") auto
  with kp kmin show ?thesis by (intro returns [of k b]) auto
qed

text \<open>
  Claim C3. With \<open>retry_attempts = n \<ge> 1\<close> and \<open>retry_delay = d\<close>, \<open>send\<close> invokes
  \<open>_send_impl\<close> at most \<open>n\<close> times; the sleeps are \<open>d * 1, d * 2, ...\<close>, one after each
  invocation but the last; when all \<open>n\<close> invocations raise it returns \<open>False\<close> (nothing is
  raised to the caller) after \<open>n\<close> invocations; and when the first \<open>k < n\<close> invocations raise
  and the next returns \<open>b\<close>, it returns \<open>b\<close> at once, after \<open>k + 1\<close> invocations.
\<close>

theorem send_retry_linear_backoff:
  assumes "1 \<le> retry_attempts cfg"
  shows "calls (snd (send cfg impl)) \<le> nat (retry_attempts cfg) \<and>
         sleeps (snd (send cfg impl)) =
           map (\<lambda>a. retry_delay cfg * a) [1 .. int (calls (snd (send cfg impl))) - 1] \<and>
         ((\<forall>j < nat (retry_attempts cfg). impl j = Raises) \<longrightarrow>
            send cfg impl =
              (False, \<lparr>calls = nat (retry_attempts cfg),
                        sleeps = map (\<lambda>a. retry_delay cfg * a) [1 .. retry_attempts cfg - 1]\<rparr>)) \<and>
         (\<forall>k b. int k < retry_attempts cfg \<and> (\<forall>j<k. impl j = Raises) \<and> impl k = Returns b \<longrightarrow>
            send cfg impl =
              (b, \<lparr>calls = Suc k, sleeps = map (\<lambda>a. retry_delay cfg * a) [1 .. int k]\<rparr>))"
proof (intro conjI)
  show "calls (snd (send cfg impl)) \<le> nat (retry_attempts cfg)"
    using assms
  proof (cases rule: send_cases [of cfg impl])
    case all_raise
    then show ?thesis using send_all_raise [OF assms] by simp
  next
    case (returns k b)
    then show ?thesis using send_first_return [of k cfg impl b] by simp
  qed
  show "sleeps (snd (send cfg impl)) =
           map (\<lambda>a. retry_delay cfg * a) [1 .. int (calls (snd (send cfg impl))) - 1]"
    using assms
  proof (cases rule: send_cases [of cfg impl])
    case all_raise
    then show ?thesis using send_all_raise [OF assms] assms by simp
  next
    case (returns k b)
    then show ?thesis using send_first_return [of k cfg impl b] by simp
  qed
  show "(\<forall>j < nat (retry_attempts cfg). impl j = Raises) \<longrightarrow>
            send cfg impl =
              (False, \<lparr>calls = nat (retry_attempts cfg),
                        sleeps = map (\<lambda>a. retry_delay cfg * a) [1 .. retry_attempts cfg - 1]\<rparr>)"
    using send_all_raise [OF assms] by blast
  show "\<forall>k b. int k < retry_attempts cfg \<and> (\<forall>j<k. impl j = Raises) \<and> impl k = Returns b \<longrightarrow>
            send cfg impl =
              (b, \<lparr>calls = Suc k, sleeps = map (\<lambda>a. retry_delay cfg * a) [1 .. int k]\<rparr>)"
    using send_first_return by blast
qed

text \<open>
  With \<open>retry_attempts = 3\<close> and \<open>retry_delay = 5\<close>: an implementation that raises twice and
  then succeeds is invoked 3 times, \<open>send\<close> returns \<open>True\<close> and the sleeps are 5 and 10
  seconds; one that always raises is invoked 3 times and \<open>send\<close> returns \<open>False\<close>.
\<close>

theorem send_retry_linear_backoff_witness:
  "1 \<le> retry_attempts \<lparr>enabled = True, service = ''ntfy'', topic = Some ''t'',
                          retry_attempts = 3, retry_delay = 5\<rparr> \<and>
   send \<lparr>enabled = True, service = ''ntfy'', topic = Some ''t'', retry_attempts = 3, retry_delay = 5\<rparr>
        (\<lambda>k. if k < 2 then Raises else Returns True)
     = (True, \<lparr>calls = 3, sleeps = [5, 10]\<rparr>) \<and>
   send \<lparr>enabled = True, service = ''ntfy'', topic = Some ''t'', retry_attempts = 3, retry_delay = 5\<rparr>
        (\<lambda>k. Raises)
     = (False, \<lparr>calls = 3, sleeps = [5, 10]\<rparr>)"
proof -
  let ?cfg = "\<lparr>enabled = True, service = ''ntfy'', topic = Some ''t'',
               retry_attempts = 3, retry_delay = 5\<rparr>"
  have n: "1 \<le> retry_attempts ?cfg" by simp
  have u2: "[1 .. 2::int] = [1, 2]" by (simp add: upto_rec1)
  have a: "send ?cfg (\<lambda>k. if k < 2 then Raises else Returns True)
             = (True, \<lparr>calls = 3, sleeps = [5, 10]\<rparr>)"
    using send_retry_linear_backoff [OF n, of "\<lambda>k. if k < 2 then Raises else Returns True"] u2
    by (auto dest!: spec [of _ "2::nat"] spec [of _ True])
  have b: "send ?cfg (\<lambda>k. Raises) = (False, \<lparr>calls = 3, sleeps = [5, 10]\<rparr>)"
    using send_retry_linear_backoff [OF n, of "\<lambda>k. Raises"] u2 by simp
  from n a b show ?thesis by blast
qed

text \<open>
  Claim C9. Only a raise is retried: when the first \<open>k\<close> invocations raise and the next one
  returns \<open>False\<close>, \<open>send\<close> returns \<open>False\<close> right after it, whatever number of attempts remain:
  there are \<open>k + 1\<close> invocations and no sleep follows the last of them. For \<open>k = 0\<close>: one
  invocation and no sleep at all.
\<close>

theorem send_false_without_raise_no_retry:
  assumes "int k < retry_attempts cfg" and "\<forall>j<k. impl j = Raises" and "impl k = Returns False"
  shows "send cfg impl =
           (False, \<lparr>calls = Suc k, sleeps = map (\<lambda>a. retry_delay cfg * a) [1 .. int k]\<rparr>)"
  using send_first_return [OF assms] .

theorem send_false_without_raise_no_retry_witness:
  "send \<lparr>enabled = True, service = ''ntfy'', topic = Some ''t'', retry_attempts = 3, retry_delay = 5\<rparr>
        (\<lambda>k. Returns False)
     = (False, \<lparr>calls = 1, sleeps = []\<rparr>)"
  using send_false_without_raise_no_retry
    [of 0 "\<lparr>enabled = True, service = ''ntfy'', topic = Some ''t'', retry_attempts = 3, retry_delay = 5\<rparr>"
        "\<lambda>k. Returns False"]
  by simp

section \<open>At-least-one delivery of NotificationManager.send_notification\<close>

lemma truthy_result_iff: "truthy_result r \<longleftrightarrow> r = Returns True"
  by (cases r) auto

text \<open>
  Claim C4. Without services \<open>send_notification\<close> returns \<open>False\<close> and hands nothing to any
  service. With services it hands the same notification value to each of them, in order,
  and returns \<open>True\<close> exactly when the \<open>send\<close> of at least one service returns \<open>True\<close>;
  a service that raises counts as a failure and the result is a boolean all the same.
\<close>

theorem send_notification_at_least_one:
  "send_notification [] t m p tg ac = (False, []) \<and>
   (services \<noteq> [] \<longrightarrow>
      fst (send_notification services t m p tg ac) =
        (\<exists>s \<in> set services.
           s \<lparr>title = t, message = m, priority = p, tags = tg, actions = ac\<rparr> = Returns True) \<and>
      snd (send_notification services t m p tg ac) =
        replicate (length services)
          \<lparr>title = t, message = m, priority = p, tags = tg, actions = ac\<rparr>)"
  by (simp add: send_notification_def gather_def Let_def list_ex_iff truthy_result_iff
      comp_def map_replicate_const)

text \<open>
  Two services, the first raising and the second succeeding: the call returns \<open>True\<close> and
  both were handed the notification. One service that raises: the call returns \<open>False\<close>.
\<close>

theorem send_notification_at_least_one_witness:
  "send_notification [\<lambda>n. Raises, \<lambda>n. Returns True] ''T'' ''M'' 3 None None =
     (True, [\<lparr>title = ''T'', message = ''M'', priority = 3, tags = None, actions = None\<rparr>,
             \<lparr>title = ''T'', message = ''M'', priority = 3, tags = None, actions = None\<rparr>]) \<and>
   send_notification [\<lambda>n. Raises] ''T'' ''M'' 3 None None =
     (False, [\<lparr>title = ''T'', message = ''M'', priority = 3, tags = None, actions = None\<rparr>])"
proof -
  have a: "send_notification [\<lambda>n. Raises, \<lambda>n. Returns True] ''T'' ''M'' 3 None None =
     (True, [\<lparr>title = ''T'', message = ''M'', priority = 3, tags = None, actions = None\<rparr>,
             \<lparr>title = ''T'', message = ''M'', priority = 3, tags = None, actions = None\<rparr>])"
    using send_notification_at_least_one
      [of "''T''" "''M''" 3 None None "[\<lambda>n. Raises, \<lambda>n. Returns True]"]
    by (simp add: prod_eq_iff)
  have b: "send_notification [\<lambda>n. Raises] ''T'' ''M'' 3 None None =
     (False, [\<lparr>title = ''T'', message = ''M'', priority = 3, tags = None, actions = None\<rparr>])"
    using send_notification_at_least_one [of "''T''" "''M''" 3 None None "[\<lambda>n. Raises]"]
    by (simp add: prod_eq_iff)
  from a b show ?thesis by blast
qed

section \<open>The listing scan and the resale filter\<close>

lemma scan_spans_ticket:
  "scan_spans ev li sps = Returns (Some t) \<Longrightarrow>
   t = simple_ticket ev li \<and>
   (\<exists>x. Returns x \<in> set sps \<and> strip (or_empty x) = ''Verified Resale Ticket'')"
  by (induction sps) (auto split: outcome.splits if_splits)

lemma scan_item_ticket:
  "scan_item ev li = Returns (Some t) \<Longrightarrow>
   t = simple_ticket ev li \<and>
   (\<exists>sps x. spans li = Returns sps \<and> Returns x \<in> set sps \<and>
      strip (or_empty x) = ''Verified Resale Ticket'')"
  by (auto simp: scan_item_def split: outcome.splits dest: scan_spans_ticket)

lemma scan_items_set:
  "set (scan_items ev lis acc) \<subseteq>
     set acc \<union> {t. \<exists>li \<in> set lis. scan_item ev li = Returns (Some t)}"
proof (induction lis arbitrary: acc)
  case Nil
  then show ?case by simp
next
  case (Cons li lis)
  show ?case
  proof (cases "scan_item ev li")
    case Raises
    then show ?thesis by auto
  next
    case (Returns r)
    show ?thesis
    proof (cases r)
      case None
      with Returns Cons.IH [of acc] show ?thesis by auto
    next
      case (Some t)
      with Returns Cons.IH [of "acc @ [t]"] show ?thesis by auto
    qed
  qed
qed


lemma simple_resale_check_set:
  assumes "t \<in> set (simple_resale_check page_items ev)"
  shows "\<exists>lis li sps x. page_items = Returns lis \<and> li \<in> set lis \<and> t = simple_ticket ev li \<and>
           spans li = Returns sps \<and> Returns x \<in> set sps \<and>
           strip (or_empty x) = ''Verified Resale Ticket''"
proof (cases page_items)
  case Raises
  with assms show ?thesis by (simp add: simple_resale_check_def)
next
  case (Returns lis)
  with assms have "t \<in> set (scan_items ev lis [])" by (simp add: simple_resale_check_def)
  with scan_items_set [of ev lis "[]"] obtain li where
    li: "li \<in> set lis" "scan_item ev li = Returns (Some t)" by auto
  from scan_item_ticket [OF li(2)] li(1) Returns show ?thesis by blast
qed





lemma strip_examples:
  "strip ''Standard Ticket'' = ''Standard Ticket''"
  "strip padded_marker = ''Verified Resale Ticket''"
  "strip ''Verified Resale Ticket'' = ''Verified Resale Ticket''"
  "strip ''Section'' = ''Section''"
  "strip '' Section'' = ''Section''"
  "strip ''Row'' = ''Row''"
  "strip ''A '' = ''A''"
  "strip ''  '' = []"
  "strip [] = []"
  by (simp_all add: strip_def lstrip_def rstrip_def whitespace_def drop_leading.simps
      padded_marker_def)

lemma item_sections:
  "section_name (simple_ticket ev resale_item) = ''A''"
  "section_name (simple_ticket ev unlabelled_item) = ''N/A''"
  "section_name (simple_ticket ev falsy_sibling_item) = ''N/A''"
  "section_name (simple_ticket ev blank_section_item) = ''N/A''"
  "section_name (simple_ticket ev raising_lookup_item) = ''N/A''"
  "section_name (simple_ticket ev raising_value_item) = ''N/A''"
  by (simp_all add: simple_ticket_def section_text_def resale_item_def unlabelled_item_def
      falsy_sibling_item_def blank_section_item_def raising_lookup_item_def
      raising_value_item_def labelled_item_def strip_examples)

lemma item_scans:
  "scan_item ev standard_item = Returns None"
  "scan_item ev resale_item = Returns (Some (simple_ticket ev resale_item))"
  "scan_item ev unlabelled_item = Returns (Some (simple_ticket ev unlabelled_item))"
  "scan_item ev falsy_sibling_item = Returns (Some (simple_ticket ev falsy_sibling_item))"
  "scan_item ev blank_section_item = Returns (Some (simple_ticket ev blank_section_item))"
  "scan_item ev raising_lookup_item = Returns (Some (simple_ticket ev raising_lookup_item))"
  "scan_item ev raising_value_item = Returns (Some (simple_ticket ev raising_value_item))"
  by (simp_all add: scan_item_def standard_item_def resale_item_def unlabelled_item_def
      falsy_sibling_item_def blank_section_item_def raising_lookup_item_def
      raising_value_item_def labelled_item_def strip_examples)

lemma resale_session_scan:
  "simple_resale_check (li_elements resale_session) ev =
     map (simple_ticket ev)
       [resale_item, unlabelled_item, falsy_sibling_item, blank_section_item,
        raising_lookup_item, raising_value_item]"
  by (simp add: resale_session_def simple_resale_check_def item_scans)

lemma resale_session_sections:
  "map section_name (simple_resale_check (li_elements resale_session) ev) =
     [''A'', ''N/A'', ''N/A'', ''N/A'', ''N/A'', ''N/A'']"
  by (simp add: resale_session_scan item_sections)




text \<open>
  Claim C1. Whatever list \<open>find_tickets\<close> returns for an event URL,
  \<open>check_for_resale_tickets\<close> returns that list filtered to the verified resale tickets:
  every ticket of the result is one, every verified resale ticket of the list is in the
  result, the result is no longer than the list, and it keeps the list's order.
\<close>

theorem check_for_resale_tickets_filter:
  "check_for_resale_tickets find_tickets_method event_url =
     filter is_verified_resale (find_tickets_method event_url) \<and>
   (\<forall>t \<in> set (check_for_resale_tickets find_tickets_method event_url). is_verified_resale t) \<and>
   (\<forall>t \<in> set (find_tickets_method event_url).
      is_verified_resale t \<longrightarrow> t \<in> set (check_for_resale_tickets find_tickets_method event_url)) \<and>
   length (check_for_resale_tickets find_tickets_method event_url) \<le>
     length (find_tickets_method event_url) \<and>
   subseq (check_for_resale_tickets find_tickets_method event_url)
     (find_tickets_method event_url)"
  by (simp add: check_for_resale_tickets_def Let_def)

text \<open>
  A \<open>find_tickets\<close> that returns a regular ticket and a verified resale ticket, as the
  mock of the tests does: the result is the resale ticket alone, one ticket of two.
\<close>

theorem check_for_resale_tickets_filter_witness:
  "mock_find_tickets ''https://example.com/event/1'' = [regular_ticket, ticket_b] \<and>
   \<not> is_verified_resale regular_ticket \<and> is_verified_resale ticket_b \<and>
   check_for_resale_tickets mock_find_tickets ''https://example.com/event/1'' = [ticket_b] \<and>
   length (check_for_resale_tickets mock_find_tickets ''https://example.com/event/1'') = 1"
proof -
  have r: "\<not> is_verified_resale regular_ticket" by (simp add: regular_ticket_def)
  have b: "is_verified_resale ticket_b" by (simp add: ticket_b_def)
  have m: "mock_find_tickets ''https://example.com/event/1'' = [regular_ticket, ticket_b]"
    by (simp add: mock_find_tickets_def)
  have c: "check_for_resale_tickets mock_find_tickets ''https://example.com/event/1'' = [ticket_b]"
    using check_for_resale_tickets_filter
      [of mock_find_tickets "''https://example.com/event/1''"] r b
    by (simp add: m)
  from r b m c show ?thesis by simp
qed

text \<open>
  Every ticket the scraper's own \<open>find_tickets\<close> returns comes from the simple scan and is
  a verified resale ticket, so on it the filter removes nothing.
\<close>

lemma find_tickets_verified:
  "t \<in> set (scraper_find_tickets s event_url) \<Longrightarrow> is_verified_resale t"
proof -
  assume t: "t \<in> set (scraper_find_tickets s event_url)"
  then have "t \<in> set (simple_resale_check (li_elements s) None)"
    by (auto simp: scraper_find_tickets_def find_tickets_def simple_check_statement_def Let_def
        split: if_splits outcome.splits)
  then obtain li where "t = simple_ticket None li"
    using simple_resale_check_set by blast
  then show ?thesis by (simp add: simple_ticket_def)
qed

lemma check_for_resale_tickets_all:
  "check_for_resale_tickets (scraper_find_tickets s) event_url = scraper_find_tickets s event_url"
  unfolding check_for_resale_tickets_def Let_def
  by (rule filter_True) (simp add: find_tickets_verified)

section \<open>Price normalization\<close>

text \<open>
  Claim C2, evaluated on the code. With both separators present the branch taken treats the
  separator that comes first as the decimal point and drops the later one: \<open>1.234,56\<close> and
  \<open>1,234.56\<close> both normalize to \<open>1.23456\<close> and parse to 1.23456, not to 1234.56. With
  the point alone, \<open>99.99\<close> behind a euro sign parses to 99.99.
\<close>

theorem parse_price_separator_order:
  "normalize_price ''1.234,56'' = ''1.23456'' \<and>
   parse_price ''1.234,56'' = Some (123456 / 100000) \<and>
   normalize_price ''1,234.56'' = ''1.23456'' \<and>
   parse_price ''1,234.56'' = Some (123456 / 100000) \<and>
   parse_price (euro @ ''99.99'') = Some (9999 / 100)"
  by (simp add: parse_price_def normalize_price_def py_float_def replace_char_def is_digit_def
      digits_value_def digit_value_def euro_def Let_def)

section \<open>The alert message\<close>

lemma floor_rat_numeral_divide:
  "\<lfloor>(numeral a :: rat) / numeral b\<rfloor> = numeral a div numeral b"
  by (metis floor_divide_of_int_eq of_int_numeral)

lemma digit_chars:
  "digit_char 0 = CHR ''0''" "digit_char 1 = CHR ''1''" "digit_char 2 = CHR ''2''"
  "digit_char 3 = CHR ''3''" "digit_char 4 = CHR ''4''" "digit_char 5 = CHR ''5''"
  "digit_char 6 = CHR ''6''" "digit_char 7 = CHR ''7''" "digit_char 8 = CHR ''8''"
  "digit_char 9 = CHR ''9''"
  by (simp_all add: digit_char_def)

lemma str_nat_digit: "n < 10 \<Longrightarrow> str_nat n = [digit_char n]"
  by (simp add: str_nat.simps)

lemma str_nat_small:
  "str_nat (Suc 0) = ''1''" "str_nat (Suc (Suc 0)) = ''2''" "str_nat 1 = ''1''" "str_nat 2 = ''2''"
  using digit_chars by (simp_all add: str_nat_digit numeral_2_eq_2 [symmetric])

lemma group_small: "n < 1000 \<Longrightarrow> group_thousands n = str_nat n"
  by (simp add: group_thousands.simps)

lemma str_nat_99: "str_nat 99 = ''99''" "str_nat 149 = ''149''"
  by (simp_all add: str_nat.simps [of 99] str_nat.simps [of 149] str_nat.simps [of 14]
      str_nat_digit digit_chars digit_char_def)

lemma format_examples:
  "format_2f (7036170730324623 / 70368744177664) = ''99.99''"
  "format_2f (659662996200489 / 4398046511104) = ''149.99''"
  by (simp_all add: format_2f_def Let_def round_half_even_def floor_rat_numeral_divide
      group_small str_nat_99 digit_char_def)

lemma scenario_message:
  "alert_message test_event [ticket_a, ticket_b] =
     ticket_emoji @ '' Test Event - 2 resale ticket(s) found!'' @
     newline @ ''1. A - '' @ euro @ ''99.99'' @
     newline @ ''2. B - '' @ euro @ ''149.99'' @
     newline @ newline @ link_emoji @ '' https://example.com/event/1''"
  by (simp add: alert_message_def message_parts_def test_event_def ticket_a_def ticket_b_def
      price_label_def format_examples str_nat_small)

lemma sublist_concat: "x \<in> set xss \<Longrightarrow> sublist x (concat xss)"
proof -
  assume "x \<in> set xss"
  then obtain as bs where "xss = as @ x # bs" by (meson split_list)
  then have "concat xss = concat as @ x @ concat bs" by simp
  then show ?thesis unfolding sublist_def by blast
qed

lemma ticket_parts_line:
  "i < length ts \<Longrightarrow>
   (newline @ str_nat (k + i) @ ''. '' @ section_name (ts ! i) @ '' - '' @ price_label (ts ! i))
     \<in> set (ticket_parts k ts)"
proof (induction ts arbitrary: i k)
  case Nil
  then show ?case by simp
next
  case (Cons t ts)
  show ?case
  proof (cases i)
    case 0
    then show ?thesis by simp
  next
    case (Suc j)
    with Cons.prems have "j < length ts" by simp
    from Cons.IH [OF this, of "Suc k"] Suc show ?thesis by simp
  qed
qed


lemma scenario_parts:
  "alert_message test_event [ticket_a, ticket_b] =
     (ticket_emoji @ '' Test Event - '') @ ''2 resale ticket(s)'' @
       ('' found!'' @ newline @ ''1. A - '' @ euro @ ''99.99'' @ newline @ ''2. B - '' @ euro @
        ''149.99'' @ newline @ newline @ link_emoji @ '' https://example.com/event/1'')"
  "alert_message test_event [ticket_a, ticket_b] =
     (ticket_emoji @ '' Test Event - 2 resale ticket(s) found!'' @ newline @ ''1. '') @
       (''A - '' @ euro @ ''99.99'') @
       (newline @ ''2. B - '' @ euro @ ''149.99'' @ newline @ newline @ link_emoji @
        '' https://example.com/event/1'')"
  "alert_message test_event [ticket_a, ticket_b] =
     (ticket_emoji @ '' Test Event - 2 resale ticket(s) found!'' @ newline @ ''1. A - '' @ euro @
        ''99.99'' @ newline @ ''2. '') @
       (''B - '' @ euro @ ''149.99'') @
       (newline @ newline @ link_emoji @ '' https://example.com/event/1'')"
  "alert_message test_event [ticket_a, ticket_b] =
     (ticket_emoji @ '' Test Event - 2 resale ticket(s) found!'' @ newline @ ''1. A - '' @ euro @
        ''99.99'' @ newline @ ''2. B - '' @ euro @ ''149.99'' @ newline @ newline @ link_emoji @
        '' '') @ url test_event @ []"
  unfolding scenario_message by (simp_all add: test_event_def)

lemma message_parts_take:
  assumes l: "length tickets = length tickets'" and t: "take 5 tickets = take 5 tickets'"
  shows "message_parts ev tickets = message_parts ev tickets'"
  unfolding message_parts_def l t by (rule refl)

text \<open>
  Claim C6, evaluated on the code. For the event and the two verified tickets of the
  scenario (section A at 99.99, section B at 149.99) the message is the header with
  \<open>2 resale ticket(s)\<close>, the lines \<open>1. A - \<euro>99.99\<close> and \<open>2. B - \<euro>149.99\<close>, and the
  event URL: the price 149.99 is printed with its two decimals, and the message has no
  \<open>B - \<euro>150.00\<close>.
\<close>

theorem alert_message_price_not_rounded:
  "alert_message test_event [ticket_a, ticket_b] =
     ticket_emoji @ '' Test Event - 2 resale ticket(s) found!'' @
     newline @ ''1. A - '' @ euro @ ''99.99'' @
     newline @ ''2. B - '' @ euro @ ''149.99'' @
     newline @ newline @ link_emoji @ '' https://example.com/event/1'' \<and>
   \<not> sublist (''B - '' @ euro @ ''150.00'') (alert_message test_event [ticket_a, ticket_b])"
proof
  show "alert_message test_event [ticket_a, ticket_b] =
     ticket_emoji @ '' Test Event - 2 resale ticket(s) found!'' @
     newline @ ''1. A - '' @ euro @ ''99.99'' @
     newline @ ''2. B - '' @ euro @ ''149.99'' @
     newline @ newline @ link_emoji @ '' https://example.com/event/1''"
    by (rule scenario_message)
  show "\<not> sublist (''B - '' @ euro @ ''150.00'') (alert_message test_event [ticket_a, ticket_b])"
    by (simp add: scenario_message sublist_code euro_def ticket_emoji_def newline_def
        link_emoji_def)
qed

text \<open>
  The same message with the rows of the tickets set, as in the test of the repository:
  the rows follow the prices, which stay \<open>99.99\<close> and \<open>149.99\<close>.
\<close>

lemma alert_message_with_rows:
  "alert_message test_event [ticket_a\<lparr>row := Some ''10''\<rparr>, ticket_b\<lparr>row := Some ''5''\<rparr>] =
     ticket_emoji @ '' Test Event - 2 resale ticket(s) found!'' @
     newline @ ''1. A - '' @ euro @ ''99.99'' @ '' (Row 10)'' @
     newline @ ''2. B - '' @ euro @ ''149.99'' @ '' (Row 5)'' @
     newline @ newline @ link_emoji @ '' https://example.com/event/1''"
  by (simp add: alert_message_def message_parts_def test_event_def ticket_a_def ticket_b_def
      price_label_def format_examples str_nat_small)

lemma alert_lists_ticket:
  assumes i: "i < min 5 (length tickets)"
  shows "sublist (newline @ str_nat (Suc i) @ ''. '' @ section_name (tickets ! i) @ '' - '' @
               price_label (tickets ! i)) (alert_message ev tickets)"
proof -
  from i have "i < length (take 5 tickets)" by simp
  from ticket_parts_line [OF this, of 1] i
  have "(newline @ str_nat (Suc i) @ ''. '' @ section_name (tickets ! i) @ '' - '' @
             price_label (tickets ! i)) \<in> set (ticket_parts 1 (take 5 tickets))"
    by simp
  then have "(newline @ str_nat (Suc i) @ ''. '' @ section_name (tickets ! i) @ '' - '' @
             price_label (tickets ! i)) \<in> set (message_parts ev tickets)"
    unfolding message_parts_def by simp
  then show ?thesis
    unfolding alert_message_def by (rule sublist_concat)
qed

lemma alert_truncation_note:
  assumes "5 < length tickets"
  shows "sublist (newline @ ''... and '' @ str_nat (length tickets - 5) @ '' more'')
           (alert_message ev tickets)"
proof -
  from assms have "(newline @ ''... and '' @ str_nat (length tickets - 5) @ '' more'')
        \<in> set (message_parts ev tickets)"
    unfolding message_parts_def by simp
  then show ?thesis
    unfolding alert_message_def by (rule sublist_concat)
qed

lemma alert_message_take:
  assumes "length tickets = length tickets'" and "take 5 tickets = take 5 tickets'"
  shows "alert_message ev tickets = alert_message ev tickets'"
  unfolding alert_message_def message_parts_take [OF assms] by (rule refl)

lemma scenario_contains:
  "sublist ''2 resale ticket(s)'' (alert_message test_event [ticket_a, ticket_b])"
  "sublist (''A - '' @ euro @ ''99.99'') (alert_message test_event [ticket_a, ticket_b])"
  "sublist (''B - '' @ euro @ ''149.99'') (alert_message test_event [ticket_a, ticket_b])"
  "sublist (url test_event) (alert_message test_event [ticket_a, ticket_b])"
     apply (subst scenario_parts(1), rule sublist_appendI)
    apply (subst scenario_parts(2), rule sublist_appendI)
   apply (subst scenario_parts(3), rule sublist_appendI)
  apply (subst scenario_parts(4), rule sublist_appendI)
  done

text \<open>
  What the message does contain. For the scenario: \<open>2 resale ticket(s)\<close>,
  \<open>A - \<euro>99.99\<close>, \<open>B - \<euro>149.99\<close> and the event URL. In general each of the first five
  tickets has its numbered line in the message, the message depends on the tickets only
  through their number and the first five, and with more than five tickets it contains the
  note \<open>... and k more\<close> for the \<open>k\<close> tickets beyond the fifth.
\<close>

lemma alert_message_contents:
  "sublist ''2 resale ticket(s)'' (alert_message test_event [ticket_a, ticket_b]) \<and>
   sublist (''A - '' @ euro @ ''99.99'') (alert_message test_event [ticket_a, ticket_b]) \<and>
   sublist (''B - '' @ euro @ ''149.99'') (alert_message test_event [ticket_a, ticket_b]) \<and>
   sublist (url test_event) (alert_message test_event [ticket_a, ticket_b]) \<and>
   (\<forall>i < min 5 (length tickets).
      sublist (newline @ str_nat (Suc i) @ ''. '' @ section_name (tickets ! i) @ '' - '' @
               price_label (tickets ! i))
        (alert_message ev tickets)) \<and>
   (length tickets = length tickets' \<and> take 5 tickets = take 5 tickets' \<longrightarrow>
      alert_message ev tickets = alert_message ev tickets') \<and>
   (5 < length tickets \<longrightarrow>
      sublist (newline @ ''... and '' @ str_nat (length tickets - 5) @ '' more'')
        (alert_message ev tickets))"
  apply (intro conjI allI impI)
        apply (rule scenario_contains(1))
       apply (rule scenario_contains(2))
      apply (rule scenario_contains(3))
     apply (rule scenario_contains(4))
    apply (erule alert_lists_ticket)
   apply (erule conjE, erule (1) alert_message_take)
  apply (erule alert_truncation_note)
  done

text \<open>
  Six tickets: the message has the line of the second ticket and the note
  \<open>... and 1 more\<close>, and it does not change when the sixth ticket does.
\<close>

lemma alert_message_six_tickets:
  "5 < length [ticket_a, ticket_b, ticket_a, ticket_b, ticket_a, ticket_b] \<and>
   sublist (newline @ ''... and 1 more'')
     (alert_message test_event [ticket_a, ticket_b, ticket_a, ticket_b, ticket_a, ticket_b]) \<and>
   sublist (newline @ ''2. B - '' @ euro @ ''149.99'')
     (alert_message test_event [ticket_a, ticket_b, ticket_a, ticket_b, ticket_a, ticket_b]) \<and>
   alert_message test_event [ticket_a, ticket_b, ticket_a, ticket_b, ticket_a, ticket_b] =
     alert_message test_event [ticket_a, ticket_b, ticket_a, ticket_b, ticket_a, ticket_a]"
proof -
  note inst = alert_message_contents
    [where tickets = "[ticket_a, ticket_b, ticket_a, ticket_b, ticket_a, ticket_b]"
       and tickets' = "[ticket_a, ticket_b, ticket_a, ticket_b, ticket_a, ticket_a]"
       and ev = test_event]
  note lines = inst [THEN conjunct2, THEN conjunct2, THEN conjunct2, THEN conjunct2, THEN conjunct1]
  note same = inst [THEN conjunct2, THEN conjunct2, THEN conjunct2, THEN conjunct2, THEN conjunct2,
    THEN conjunct1]
  note more = inst [THEN conjunct2, THEN conjunct2, THEN conjunct2, THEN conjunct2, THEN conjunct2,
    THEN conjunct2]
  have n: "5 < length [ticket_a, ticket_b, ticket_a, ticket_b, ticket_a, ticket_b]" by simp
  have b: "price_label ticket_b = euro @ ''149.99''" "section_name ticket_b = ''B''"
    by (simp_all add: price_label_def ticket_b_def format_examples)
  have i1: "(1::nat) < min 5 (length [ticket_a, ticket_b, ticket_a, ticket_b, ticket_a, ticket_b])"
    by simp
  from lines [rule_format, OF i1] have "sublist (newline @ str_nat (Suc 1) @ ''. '' @
      section_name ([ticket_a, ticket_b, ticket_a, ticket_b, ticket_a, ticket_b] ! 1) @ '' - '' @
      price_label ([ticket_a, ticket_b, ticket_a, ticket_b, ticket_a, ticket_b] ! 1))
     (alert_message test_event [ticket_a, ticket_b, ticket_a, ticket_b, ticket_a, ticket_b])"
    .
  then have l: "sublist (newline @ ''2. B - '' @ euro @ ''149.99'')
     (alert_message test_event [ticket_a, ticket_b, ticket_a, ticket_b, ticket_a, ticket_b])"
    by (simp add: b str_nat_small)
  from more [rule_format, OF n] have m: "sublist (newline @ ''... and 1 more'')
     (alert_message test_event [ticket_a, ticket_b, ticket_a, ticket_b, ticket_a, ticket_b])"
    by (simp add: str_nat_small)
  have "length [ticket_a, ticket_b, ticket_a, ticket_b, ticket_a, ticket_b] =
        length [ticket_a, ticket_b, ticket_a, ticket_b, ticket_a, ticket_a] \<and>
        take 5 [ticket_a, ticket_b, ticket_a, ticket_b, ticket_a, ticket_b] =
        take 5 [ticket_a, ticket_b, ticket_a, ticket_b, ticket_a, ticket_a]"
    by (simp add: eval_nat_numeral)
  with same have e: "alert_message test_event [ticket_a, ticket_b, ticket_a, ticket_b, ticket_a, ticket_b] =
     alert_message test_event [ticket_a, ticket_b, ticket_a, ticket_b, ticket_a, ticket_a]"
    by (rule mp)
  show ?thesis
    apply (intro conjI)
       apply (rule n)
      apply (rule m)
     apply (rule l)
    apply (rule e)
    done
qed

text \<open>
  Claim C10. The line of a ticket is its index, its section and its price label; the label
  is \<open>Price not available\<close> for the price 0.0 as for no price, and the euro amount with
  two decimals for every other price.
\<close>

theorem zero_price_not_available:
  "price_label (t\<lparr>price := Some 0\<rparr>) = ''Price not available'' \<and>
   price_label (t\<lparr>price := None\<rparr>) = ''Price not available'' \<and>
   (p \<noteq> 0 \<longrightarrow> price_label (t\<lparr>price := Some p\<rparr>) = euro @ format_2f p) \<and>
   hd (ticket_parts i (t # ts)) =
     newline @ str_nat i @ ''. '' @ section_name t @ '' - '' @ price_label t"
  by (simp add: price_label_def)

text \<open>
  A ticket of section A at index 1: \<open>Price not available\<close> with price 0.0 and with no
  price, \<open>\<euro>99.99\<close> with the price 99.99.
\<close>

theorem zero_price_not_available_witness:
  "hd (ticket_parts 1 [ticket_a\<lparr>price := Some 0\<rparr>]) = newline @ ''1. A - Price not available'' \<and>
   hd (ticket_parts 1 [ticket_a\<lparr>price := None\<rparr>]) = newline @ ''1. A - Price not available'' \<and>
   (7036170730324623 / 70368744177664 :: rat) \<noteq> 0 \<and>
   hd (ticket_parts 1 [ticket_a\<lparr>price := Some (7036170730324623 / 70368744177664)\<rparr>]) =
     newline @ ''1. A - '' @ euro @ ''99.99''"
proof -
  have s: "section_name (ticket_a\<lparr>price := q\<rparr>) = ''A''" for q by (simp add: ticket_a_def)
  have u: "ticket_a\<lparr>price := q\<rparr>\<lparr>price := r\<rparr> = ticket_a\<lparr>price := r\<rparr>" for q r by simp
  note z = zero_price_not_available [of "ticket_a\<lparr>price := Some 0\<rparr>" 1 1 "[]"]
  note n = zero_price_not_available [of "ticket_a\<lparr>price := None\<rparr>" 1 1 "[]"]
  note p = zero_price_not_available
    [of "ticket_a\<lparr>price := Some (7036170730324623 / 70368744177664)\<rparr>"
        "7036170730324623 / 70368744177664" 1 "[]"]
  have nz: "(7036170730324623 / 70368744177664 :: rat) \<noteq> 0" by simp
  have a: "hd (ticket_parts 1 [ticket_a\<lparr>price := Some 0\<rparr>]) = newline @ ''1. A - Price not available''"
    using z by (simp add: s u str_nat_small)
  have b: "hd (ticket_parts 1 [ticket_a\<lparr>price := None\<rparr>]) = newline @ ''1. A - Price not available''"
    using z n by (simp add: s u str_nat_small)
  have c: "hd (ticket_parts 1 [ticket_a\<lparr>price := Some (7036170730324623 / 70368744177664)\<rparr>]) =
     newline @ ''1. A - '' @ euro @ ''99.99''"
    using p nz by (simp add: s u str_nat_small format_examples)
  from a b nz c show ?thesis by (intro conjI)
qed


section \<open>The browser session of one check\<close>

text \<open>
  When every call of the engine succeeds, the session releases page, context, browser and
  engine, in this order and once each, whatever the outcome of its body.
\<close>

lemma session_all_ok:
  "scraper_session engine_ok body =
     (body, Some \<lparr>playwright_attr = True, browser_attr = True, context_attr = True,
                   page_attr = True, open_resources = {},
                   released = [Page, Context, Browser, Engine]\<rparr>)"
  by (cases body)
     (auto simp: scraper_session_def aenter_def aexit_def browser_setup_def cleanup_def
        release_def new_manager_def engine_ok_def Let_def)

text \<open>
  Claim C7, evaluated on the code. When \<open>new_page\<close> raises during \<open>setup\<close>, after the
  engine, the browser and the context were acquired, \<open>__aenter__\<close> raises, \<open>__aexit__\<close> is
  not called and the session ends with the three resources open and nothing released.
\<close>

theorem session_setup_failure_leaks:
  "scraper_session engine_new_page_raises body =
     (Raises, Some \<lparr>playwright_attr = True, browser_attr = True, context_attr = True,
                     page_attr = False, open_resources = {Engine, Browser, Context},
                     released = []\<rparr>)"
  by (auto simp: scraper_session_def aenter_def browser_setup_def new_manager_def
      engine_new_page_raises_def engine_ok_def Let_def)

section \<open>The chunked wait\<close>

lemma wait_chunks_bound:
  "now w < s + 10 \<Longrightarrow> wait_chunks (Some s) n w = r \<Longrightarrow>
   (case r of Inl w' \<Rightarrow> now w' < s + 10 | Inr w' \<Rightarrow> now w' < s + 10)"
proof (induction n arbitrary: w)
  case 0
  then show ?case by auto
next
  case (Suc n)
  show ?case
  proof (cases "is_set (Some s) (now w)")
    case True
    with Suc.prems show ?thesis by auto
  next
    case False
    then have "now (sleep 10 w) < s + 10" by (simp add: is_set_def sleep_def)
    from Suc.IH [OF this] Suc.prems(2) False show ?thesis by simp
  qed
qed

lemma wait_chunks_slept:
  "wait_chunks sd n w = r \<Longrightarrow>
   (case r of Inl w' \<Rightarrow> (\<exists>k\<le>n. slept w' = slept w @ replicate k 10 \<and> now w' = now w + 10 * of_nat k)
            | Inr w' \<Rightarrow> slept w' = slept w @ replicate n 10 \<and> now w' = now w + 10 * of_nat n)"
proof (induction n arbitrary: w r)
  case 0
  then show ?case by auto
next
  case (Suc n)
  show ?case
  proof (cases "is_set sd (now w)")
    case True
    with Suc.prems show ?thesis by auto
  next
    case False
    with Suc.prems have r: "wait_chunks sd n (sleep 10 w) = r" by simp
    from Suc.IH [OF r] show ?thesis
      apply (cases r)
       apply (clarsimp simp: sleep_def)
       apply (rule_tac x = "Suc k" in exI)
       apply (simp add: replicate_append_same algebra_simps)
      apply (clarsimp simp: sleep_def replicate_append_same algebra_simps)
      done
  qed
qed

lemma wait_chunks_never:
  "wait_chunks None n w = Inr \<lparr>now = now w + 10 * of_nat n, slept = slept w @ replicate n 10\<rparr>"
proof (induction n arbitrary: w)
  case 0
  then show ?case by simp
next
  case (Suc n)
  then show ?case by (simp add: is_set_def sleep_def replicate_append_same algebra_simps)
qed

lemma remainder_bounds:
  fixes x :: rat
  shows "0 \<le> x - 10 * of_int \<lfloor>x / 10\<rfloor>" "x - 10 * of_int \<lfloor>x / 10\<rfloor> < 10"
proof -
  have "of_int \<lfloor>x / 10\<rfloor> \<le> x / 10" by (rule of_int_floor_le)
  then show "0 \<le> x - 10 * of_int \<lfloor>x / 10\<rfloor>" by simp
  have "x / 10 < of_int \<lfloor>x / 10\<rfloor> + 1" by linarith
  then show "x - 10 * of_int \<lfloor>x / 10\<rfloor> < 10" by simp
qed

lemma wait_tail:
  fixes n :: nat and start s remainder :: rat
  assumes start: "start \<le> s" and rem: "remainder < 10"
  defines "w' \<equiv> (case wait_chunks (Some s) n \<lparr>now = start, slept = []\<rparr> of
                    Inl v \<Rightarrow> v
                  | Inr v \<Rightarrow> if 0 < remainder \<and> \<not> is_set (Some s) (now v)
                            then sleep remainder v else v)"
  shows "now w' < s + 10 \<and> now w' = start + sum_list (slept w') \<and>
         (\<forall>d \<in> set (slept w'). 0 < d \<and> d \<le> 10) \<and>
         (\<forall>d \<in> set (butlast (slept w')). d = 10)"
proof (cases "wait_chunks (Some s) n \<lparr>now = start, slept = []\<rparr>")
  case (Inl v)
  from wait_chunks_bound [of "\<lparr>now = start, slept = []\<rparr>" s n, OF _ Inl] start
  have b: "now v < s + 10" by simp
  from wait_chunks_slept [OF Inl] obtain k where
    k: "slept v = replicate k 10" "now v = start + 10 * of_nat k" by auto
  have "w' = v" using Inl by (simp add: w'_def)
  with b k show ?thesis by (auto simp: sum_list_replicate dest: in_set_butlastD)
next
  case (Inr v)
  from wait_chunks_bound [of "\<lparr>now = start, slept = []\<rparr>" s n, OF _ Inr] start
  have b: "now v < s + 10" by simp
  from wait_chunks_slept [OF Inr] have
    k: "slept v = replicate n 10" "now v = start + 10 * of_nat n" by auto
  show ?thesis
  proof (cases "0 < remainder \<and> \<not> is_set (Some s) (now v)")
    case True
    then have w: "w' = sleep remainder v" using Inr by (simp add: w'_def)
    from True have "now v < s" by (simp add: is_set_def)
    with rem True k show ?thesis by (auto simp: w sleep_def sum_list_replicate)
  next
    case False
    then have "w' = v" using Inr by (auto simp: w'_def)
    with b k show ?thesis by (auto simp: sum_list_replicate dest: in_set_butlastD)
  qed
qed

text \<open>
  Claim C8. A wait that starts at \<open>start\<close>, with the shutdown flag set at a time
  \<open>s \<ge> start\<close>, ends less than 10 seconds after \<open>s\<close>, whatever the interval drawn. The
  time it takes is the sum of its sleeps; each sleep is at most 10 seconds and every sleep
  but the last is exactly 10 seconds.
\<close>

theorem chunked_wait_shutdown_latency:
  assumes "start \<le> s"
  shows "now (wait_until_next_check (Some s) check_interval u \<lparr>now = start, slept = []\<rparr>) < s + 10 \<and>
         now (wait_until_next_check (Some s) check_interval u \<lparr>now = start, slept = []\<rparr>) =
           start + sum_list (slept (wait_until_next_check (Some s) check_interval u
                                      \<lparr>now = start, slept = []\<rparr>)) \<and>
         (\<forall>d \<in> set (slept (wait_until_next_check (Some s) check_interval u
                              \<lparr>now = start, slept = []\<rparr>)).
            0 < d \<and> d \<le> 10) \<and>
         (\<forall>d \<in> set (butlast (slept (wait_until_next_check (Some s) check_interval u
                                       \<lparr>now = start, slept = []\<rparr>))).
            d = 10)"
proof -
  obtain a b where ci: "check_interval = (a, b)" by (cases check_interval)
  show ?thesis
    unfolding wait_until_next_check_def ci Let_def prod.case
    by (rule wait_tail [OF assms remainder_bounds(2)])
qed

text \<open>Without a shutdown the wait lasts the whole interval drawn.\<close>

lemma wait_full_without_shutdown:
  assumes "0 \<le> a + (b - a) * u"
  shows "now (wait_until_next_check None (a, b) u \<lparr>now = start, slept = []\<rparr>) =
           start + (a + (b - a) * u) * 60"
proof -
  define ws where "ws = (a + (b - a) * u) * 60"
  define c where "c = \<lfloor>ws / 10\<rfloor>"
  have "0 \<le> ws" using assms by (simp add: ws_def)
  then have "0 \<le> c" by (simp add: c_def)
  then have n: "of_nat (nat c) = (of_int c :: rat)" by simp
  have r: "0 \<le> ws - 10 * of_int c" unfolding c_def by (rule remainder_bounds(1))
  have "wait_until_next_check None (a, b) u \<lparr>now = start, slept = []\<rparr> =
      (if 0 < ws - 10 * of_int c
       then sleep (ws - 10 * of_int c)
              \<lparr>now = start + 10 * of_nat (nat c), slept = replicate (nat c) 10\<rparr>
       else \<lparr>now = start + 10 * of_nat (nat c), slept = replicate (nat c) 10\<rparr>)"
    unfolding wait_until_next_check_def Let_def prod.case ws_def [symmetric] c_def [symmetric]
    by (simp add: wait_chunks_never is_set_def)
  then have "now (wait_until_next_check None (a, b) u \<lparr>now = start, slept = []\<rparr>) =
      start + ws"
    using r by (simp add: sleep_def n)
  then show ?thesis by (simp add: ws_def)
qed

text \<open>
  A wait of 300 seconds from time 0: with the flag set at 123 it ends at 130, after 13
  sleeps of 10 seconds; without shutdown it ends at 300.
\<close>

theorem chunked_wait_shutdown_latency_witness:
  "(0::rat) \<le> 123 \<and>
   wait_until_next_check (Some 123) (5, 5) 0 \<lparr>now = 0, slept = []\<rparr> =
     \<lparr>now = 130, slept = replicate 13 10\<rparr> \<and>
   wait_until_next_check None (5, 5) 0 \<lparr>now = 0, slept = []\<rparr> =
     \<lparr>now = 300, slept = replicate 30 10\<rparr>"
proof -
  have h: "(0::rat) \<le> 123" by simp
  note inst = chunked_wait_shutdown_latency [OF h, of "(5, 5)" 0]
  have a: "wait_until_next_check (Some 123) (5, 5) 0 \<lparr>now = 0, slept = []\<rparr> =
     \<lparr>now = 130, slept = replicate 13 10\<rparr>"
    using inst
    by (simp add: wait_until_next_check_def Let_def eval_nat_numeral is_set_def sleep_def)
  have b: "wait_until_next_check None (5, 5) 0 \<lparr>now = 0, slept = []\<rparr> =
     \<lparr>now = 300, slept = replicate 30 10\<rparr>"
    by (simp add: wait_until_next_check_def Let_def wait_chunks_never is_set_def)
  from h a b show ?thesis by (intro conjI)
qed

end
